theory Spec2Isabelle
  imports Complex_Main "HOL-Library.AList"
begin

section \<open>Python values used by the scheduling engine\<close>

text \<open>
  The engine of \<^verbatim>\<open>src/core/spaced_repetition.py\<close> is embedded function by function.
  Python \<^verbatim>\<open>int\<close> is \<^typ>\<open>int\<close>. Python \<^verbatim>\<open>float\<close> is idealised as \<^typ>\<open>real\<close>:
  sums, differences and products are exact, there is no rounding, no infinity and no NaN.
  Every result below that mentions a float depends only on the order of the reals,
  on \<open>max\<close>/\<open>min\<close> and on truncation, and every concrete value used in a closed
  theorem is far from a rounding boundary.
  The exceptions the source can raise implicitly are values of \<open>py_error\<close>.
\<close>

datatype py_error = ValueError | TypeError | OverflowError | IndexError

text \<open>\<^verbatim>\<open>int(x)\<close> on a float truncates toward zero.\<close>

definition py_int :: "real \<Rightarrow> int" where
  "py_int x = (if 0 \<le> x then \<lfloor>x\<rfloor> else \<lceil>x\<rceil>)"

text \<open>\<^verbatim>\<open>xs[i]\<close>: negative indices count from the end, anything else out of range raises.\<close>

definition py_index :: "'a list \<Rightarrow> int \<Rightarrow> py_error + 'a" where
  "py_index xs i =
     (if 0 \<le> i \<and> i < int (length xs) then Inr (xs ! nat i)
      else if - int (length xs) \<le> i \<and> i < 0 then Inr (xs ! nat (int (length xs) + i))
      else Inl IndexError)"

subsection \<open>datetime and timedelta\<close>

text \<open>
  A \<^verbatim>\<open>datetime\<close> is its wall-clock reading in microseconds since 0001-01-01T00:00:00,
  either naive (no tzinfo) or aware (with a UTC offset in microseconds).
  \<^verbatim>\<open>datetime.max\<close> is 9999-12-31T23:59:59.999999, day number 3652059.
\<close>

datatype datetime = Naive int | Aware int int

definition DAY :: int where "DAY = 86400000000"
definition MINUTE :: int where "MINUTE = 60000000"
definition MAX_MICROS :: int where "MAX_MICROS = 3652059 * 86400000000 - 1"

fun is_naive :: "datetime \<Rightarrow> bool" where
  "is_naive (Naive l) = True"
| "is_naive (Aware l off) = False"

text \<open>\<^verbatim>\<open>datetime.now(timezone.utc)\<close> when the clock reads \<open>t\<close>.\<close>

definition utc_now :: "int \<Rightarrow> datetime" where
  "utc_now t = Aware t 0"

text \<open>\<^verbatim>\<open>a <= b\<close>: two aware values compare as instants, two naive values as readings,
  a naive and an aware value raise TypeError.\<close>

fun dt_le :: "datetime \<Rightarrow> datetime \<Rightarrow> py_error + bool" where
  "dt_le (Naive a) (Naive b) = Inr (a \<le> b)"
| "dt_le (Aware a oa) (Aware b ob) = Inr (a - oa \<le> b - ob)"
| "dt_le (Naive a) (Aware b ob) = Inl TypeError"
| "dt_le (Aware a oa) (Naive b) = Inl TypeError"

text \<open>\<^verbatim>\<open>timedelta(...)\<close> of a number of microseconds: the normalised day count must have
  magnitude at most 999999999.\<close>

definition timedelta :: "int \<Rightarrow> py_error + int" where
  "timedelta us =
     (let d = us div DAY
      in if - 999999999 \<le> d \<and> d \<le> 999999999 then Inr us else Inl OverflowError)"

text \<open>\<^verbatim>\<open>dt + td\<close>: the result must lie between \<^verbatim>\<open>datetime.min\<close> and \<^verbatim>\<open>datetime.max\<close>.\<close>

fun dt_shift :: "datetime \<Rightarrow> int \<Rightarrow> datetime" where
  "dt_shift (Naive l) us = Naive (l + us)"
| "dt_shift (Aware l off) us = Aware (l + us) off"

fun local_micros :: "datetime \<Rightarrow> int" where
  "local_micros (Naive l) = l"
| "local_micros (Aware l off) = l"

definition dt_plus :: "datetime \<Rightarrow> py_error + int \<Rightarrow> py_error + datetime" where
  "dt_plus dt td =
     (case td of
        Inl err \<Rightarrow> Inl err
      | Inr us \<Rightarrow>
          (let l = local_micros dt + us
           in if 0 \<le> l \<and> l \<le> MAX_MICROS then Inr (dt_shift dt us) else Inl OverflowError))"

section \<open>The data model\<close>

datatype ReviewResult = AGAIN | HARD | GOOD | EASY

record ReviewData =
  ease_factor :: real
  interval :: int
  repetition :: int
  last_review :: "datetime option"
  next_review :: "datetime option"
  total_reviews :: int
  total_time_spent :: real
  learning_step :: int
  graduated :: bool
  response_times :: "real list"
  review_history :: "(datetime \<times> ReviewResult \<times> real) list"

text \<open>\<^verbatim>\<open>ReviewData()\<close>: the dataclass defaults.\<close>

definition new_ReviewData :: ReviewData where
  "new_ReviewData =
     \<lparr> ease_factor = 2.5, interval = 1, repetition = 0,
       last_review = None, next_review = None,
       total_reviews = 0, total_time_spent = 0,
       learning_step = 0, graduated = False,
       response_times = [], review_history = [] \<rparr>"

text \<open>\<^verbatim>\<open>ReviewData.add_review\<close>; \<open>t\<close> is the clock reading of its \<^verbatim>\<open>datetime.now\<close>.\<close>

definition add_review :: "int \<Rightarrow> ReviewResult \<Rightarrow> real \<Rightarrow> ReviewData \<Rightarrow> ReviewData" where
  "add_review t result response_time d =
     (let d1 = d\<lparr> review_history := review_history d @ [(utc_now t, result, response_time)] \<rparr>;
          d2 = d1\<lparr> response_times := response_times d1 @ [response_time] \<rparr>;
          d3 = d2\<lparr> total_reviews := total_reviews d2 + 1 \<rparr>;
          d4 = d3\<lparr> total_time_spent := total_time_spent d3 + response_time \<rparr>
      in if length (response_times d4) > 50
         then d4\<lparr> response_times := drop (length (response_times d4) - 50) (response_times d4) \<rparr>
         else d4)"

section \<open>The engine\<close>

definition LEARNING_STEPS :: "int list" where "LEARNING_STEPS = [1, 10, 1440]"
definition GRADUATING_INTERVAL :: int where "GRADUATING_INTERVAL = 1"
definition EASY_INTERVAL :: int where "EASY_INTERVAL = 4"
definition HARD_INTERVAL_FACTOR :: real where "HARD_INTERVAL_FACTOR = 1.2"
definition EASY_INTERVAL_FACTOR :: real where "EASY_INTERVAL_FACTOR = 1.3"
definition MIN_EASE_FACTOR :: real where "MIN_EASE_FACTOR = 1.3"
definition MAX_EASE_FACTOR :: real where "MAX_EASE_FACTOR = 5.0"

text \<open>
  \<^verbatim>\<open>self.review_data\<close> is a dict, which keeps insertion order: an association list with
  \<open>map_of\<close> for lookup and \<open>AList.update\<close> for item assignment (an existing key keeps
  its place, a new key goes to the end).
\<close>

type_synonym engine = "(string \<times> ReviewData) list"

definition get_review_data :: "string \<Rightarrow> engine \<Rightarrow> ReviewData \<times> engine" where
  "get_review_data card_id e =
     (case map_of e card_id of
        None \<Rightarrow> (new_ReviewData, AList.update card_id new_ReviewData e)
      | Some d \<Rightarrow> (d, e))"

definition process_learning_review :: "ReviewData \<Rightarrow> ReviewResult \<Rightarrow> ReviewData" where
  "process_learning_review d result =
     (if result = AGAIN then d\<lparr> learning_step := 0 \<rparr>
      else if result = GOOD \<or> result = EASY then
        (let d1 = d\<lparr> learning_step := learning_step d + 1 \<rparr>
         in if learning_step d1 \<ge> int (length LEARNING_STEPS)
            then (let d2 = d1\<lparr> graduated := True, repetition := 1 \<rparr>
                  in if result = EASY then d2\<lparr> interval := EASY_INTERVAL \<rparr>
                     else d2\<lparr> interval := GRADUATING_INTERVAL \<rparr>)
            else d1)
      else d)"

definition update_ease_factor :: "ReviewData \<Rightarrow> ReviewResult \<Rightarrow> ReviewData" where
  "update_ease_factor d result =
     (if result = HARD then d\<lparr> ease_factor := max MIN_EASE_FACTOR (ease_factor d - 0.15) \<rparr>
      else if result = EASY then d\<lparr> ease_factor := min MAX_EASE_FACTOR (ease_factor d + 0.1) \<rparr>
      else if result = GOOD then d\<lparr> ease_factor := max MIN_EASE_FACTOR (ease_factor d - 0.02) \<rparr>
      else d)"

definition process_graduated_review :: "ReviewData \<Rightarrow> ReviewResult \<Rightarrow> ReviewData" where
  "process_graduated_review d result =
     (if result = AGAIN then
        d\<lparr> graduated := False, learning_step := 0, repetition := 0, interval := 1,
           ease_factor := max MIN_EASE_FACTOR (ease_factor d - 0.2) \<rparr>
      else
        (let d1 = update_ease_factor d result;
             d2 = (if repetition d1 = 0 then d1\<lparr> interval := 1 \<rparr>
                   else if repetition d1 = 1 then d1\<lparr> interval := 6 \<rparr>
                   else if result = HARD then
                     d1\<lparr> interval := max 1 (py_int (real_of_int (interval d1) * HARD_INTERVAL_FACTOR)) \<rparr>
                   else if result = EASY then
                     d1\<lparr> interval :=
                           py_int (real_of_int (interval d1) * ease_factor d1 * EASY_INTERVAL_FACTOR) \<rparr>
                   else
                     d1\<lparr> interval := py_int (real_of_int (interval d1) * ease_factor d1) \<rparr>)
         in d2\<lparr> repetition := repetition d2 + 1 \<rparr>))"

text \<open>
  \<^verbatim>\<open>_calculate_next_review\<close>; \<open>t\<close> is the clock reading. The record is mutated in place, so
  when the date arithmetic raises, the record keeps its old \<open>next_review\<close> and the error
  is returned beside it.
\<close>

definition set_next_review :: "ReviewData \<Rightarrow> py_error + datetime \<Rightarrow> ReviewData \<times> py_error option" where
  "set_next_review d r =
     (case r of Inl err \<Rightarrow> (d, Some err) | Inr dt \<Rightarrow> (d\<lparr> next_review := Some dt \<rparr>, None))"

definition calculate_next_review :: "int \<Rightarrow> ReviewData \<Rightarrow> ReviewData \<times> py_error option" where
  "calculate_next_review t d =
     (let now = utc_now t
      in if \<not> graduated d then
           (if learning_step d < int (length LEARNING_STEPS) then
              (case py_index LEARNING_STEPS (learning_step d) of
                 Inl err \<Rightarrow> (d, Some err)
               | Inr minutes \<Rightarrow> set_next_review d (dt_plus now (timedelta (minutes * MINUTE))))
            else set_next_review d (dt_plus now (timedelta (1 * DAY))))
         else set_next_review d (dt_plus now (timedelta (interval d * DAY))))"

text \<open>
  \<^verbatim>\<open>review_card\<close>. The three clock readings are those of \<^verbatim>\<open>add_review\<close>, of the
  assignment to \<^verbatim>\<open>last_review\<close> and of \<^verbatim>\<open>_calculate_next_review\<close>. The result is the
  engine after the call and the exception, if one was raised.
\<close>

definition review_card ::
  "string \<Rightarrow> ReviewResult \<Rightarrow> real \<Rightarrow> int \<Rightarrow> int \<Rightarrow> int \<Rightarrow> engine \<Rightarrow> engine \<times> py_error option" where
  "review_card card_id result response_time t1 t2 t3 e =
     (let (d0, e1) = get_review_data card_id e;
          d1 = add_review t1 result response_time d0;
          d2 = d1\<lparr> last_review := Some (utc_now t2) \<rparr>;
          d3 = (if \<not> graduated d2 then process_learning_review d2 result
                else process_graduated_review d2 result);
          (d4, err) = calculate_next_review t3 d3
      in (AList.update card_id d4 e1, err))"


text \<open>\<^verbatim>\<open>get_due_cards\<close>; \<open>due\<close> is the list built so far. The comparison raises when it
  meets a naive \<open>next_review\<close>; the records created before that stay in the dict.\<close>

fun get_due_loop ::
  "datetime \<Rightarrow> string list \<Rightarrow> string list \<Rightarrow> engine \<Rightarrow> engine \<times> (py_error + string list)" where
  "get_due_loop now [] due e = (e, Inr due)"
| "get_due_loop now (card_id # rest) due e =
     (let (d, e1) = get_review_data card_id e
      in case next_review d of
           None \<Rightarrow> get_due_loop now rest (due @ [card_id]) e1
         | Some nr \<Rightarrow>
             (case dt_le nr now of
                Inl err \<Rightarrow> (e1, Inl err)
              | Inr b \<Rightarrow> get_due_loop now rest (if b then due @ [card_id] else due) e1))"

definition get_due_cards :: "int \<Rightarrow> string list \<Rightarrow> engine \<Rightarrow> engine \<times> (py_error + string list)" where
  "get_due_cards t card_ids e = get_due_loop (utc_now t) card_ids [] e"

text \<open>\<^verbatim>\<open>get_study_stats\<close>: the returned dict as a record, the local counters of the loop
  as another.\<close>

record StudyStats =
  s_total_cards :: int
  s_new_cards :: int
  s_learning_cards :: int
  s_due_cards :: int
  s_total_reviews :: int
  s_average_ease :: real
  s_average_interval :: real
  s_success_rate :: real
  s_total_study_time :: real

record stats_counters =
  new_cards :: int
  learning_cards :: int
  due_cards :: int
  sum_reviews :: int
  total_ease :: real
  total_interval :: real
  graduated_count :: int
  total_study_time :: real
  successful_reviews :: int

definition count_successful :: "(datetime \<times> ReviewResult \<times> real) list \<Rightarrow> int" where
  "count_successful h = int (length (filter (\<lambda>(ts, result, time). result = GOOD \<or> result = EASY) h))"

definition count_card_type :: "datetime \<Rightarrow> ReviewData \<Rightarrow> stats_counters \<Rightarrow> py_error + stats_counters" where
  "count_card_type now d c =
     (case next_review d of
        None \<Rightarrow> Inr (c\<lparr> new_cards := new_cards c + 1 \<rparr>)
      | Some nr \<Rightarrow>
          (if \<not> graduated d then Inr (c\<lparr> learning_cards := learning_cards c + 1 \<rparr>)
           else (case dt_le nr now of
                   Inl err \<Rightarrow> Inl err
                 | Inr b \<Rightarrow> Inr (if b then c\<lparr> due_cards := due_cards c + 1 \<rparr> else c))))"

definition accumulate_stats :: "ReviewData \<Rightarrow> stats_counters \<Rightarrow> stats_counters" where
  "accumulate_stats d c =
     (let c1 = c\<lparr> sum_reviews := sum_reviews c + total_reviews d \<rparr>;
          c2 = c1\<lparr> total_study_time := total_study_time c1 + total_time_spent d \<rparr>;
          c3 = (if graduated d
                then c2\<lparr> total_ease := total_ease c2 + ease_factor d,
                         total_interval := total_interval c2 + real_of_int (interval d),
                         graduated_count := graduated_count c2 + 1 \<rparr>
                else c2)
      in c3\<lparr> successful_reviews := successful_reviews c3 + count_successful (review_history d) \<rparr>)"

fun stats_loop ::
  "datetime \<Rightarrow> string list \<Rightarrow> stats_counters \<Rightarrow> engine \<Rightarrow> engine \<times> (py_error + stats_counters)" where
  "stats_loop now [] c e = (e, Inr c)"
| "stats_loop now (card_id # rest) c e =
     (let (d, e1) = get_review_data card_id e
      in case count_card_type now d c of
           Inl err \<Rightarrow> (e1, Inl err)
         | Inr c1 \<Rightarrow> stats_loop now rest (accumulate_stats d c1) e1)"

definition zero_counters :: stats_counters where
  "zero_counters =
     \<lparr> new_cards = 0, learning_cards = 0, due_cards = 0, sum_reviews = 0, total_ease = 0,
       total_interval = 0, graduated_count = 0, total_study_time = 0, successful_reviews = 0 \<rparr>"

definition stats_result :: "string list \<Rightarrow> stats_counters \<Rightarrow> StudyStats" where
  "stats_result card_ids c =
     \<lparr> s_total_cards = int (length card_ids),
       s_new_cards = new_cards c,
       s_learning_cards = learning_cards c,
       s_due_cards = due_cards c,
       s_total_reviews = sum_reviews c,
       s_average_ease =
         (if graduated_count c > 0 then total_ease c / real_of_int (graduated_count c) else 2.5),
       s_average_interval =
         (if graduated_count c > 0 then total_interval c / real_of_int (graduated_count c) else 0),
       s_success_rate =
         (if sum_reviews c > 0 then real_of_int (successful_reviews c) / real_of_int (sum_reviews c)
          else 0),
       s_total_study_time = total_study_time c \<rparr>"

definition empty_stats :: StudyStats where
  "empty_stats =
     \<lparr> s_total_cards = 0, s_new_cards = 0, s_learning_cards = 0, s_due_cards = 0,
       s_total_reviews = 0, s_average_ease = 0, s_average_interval = 0, s_success_rate = 0,
       s_total_study_time = 0 \<rparr>"

definition get_study_stats :: "int \<Rightarrow> string list \<Rightarrow> engine \<Rightarrow> engine \<times> (py_error + StudyStats)" where
  "get_study_stats t card_ids e =
     (if card_ids = [] then (e, Inr empty_stats)
      else (case stats_loop (utc_now t) card_ids zero_counters e of
              (e1, Inl err) \<Rightarrow> (e1, Inl err)
            | (e1, Inr c) \<Rightarrow> (e1, Inr (stats_result card_ids c))))"

section \<open>Snapshots: export and import\<close>

text \<open>
  One snapshot entry, the dict read by \<^verbatim>\<open>import_data\<close> with \<^verbatim>\<open>card_data.get(key, default)\<close>:
  \<open>None\<close> is a key that is absent (for the two timestamps also a JSON null), \<open>Some\<close>
  a value of the documented JSON type. A snapshot is a dict from card id to entry, kept in
  its iteration order; it holds deserialised data, so no list is shared with a record.
\<close>

record card_data =
  cd_ease_factor :: "real option"
  cd_interval :: "int option"
  cd_repetition :: "int option"
  cd_last_review :: "string option"
  cd_next_review :: "string option"
  cd_total_reviews :: "int option"
  cd_total_time_spent :: "real option"
  cd_learning_step :: "int option"
  cd_graduated :: "bool option"
  cd_response_times :: "real list option"
  cd_review_history :: "(string \<times> int \<times> real) list option"

type_synonym snapshot = "(string \<times> card_data) list"

text \<open>\<^verbatim>\<open>result.value\<close> and \<^verbatim>\<open>ReviewResult(result_val)\<close>.\<close>

fun result_value :: "ReviewResult \<Rightarrow> int" where
  "result_value AGAIN = 0"
| "result_value HARD = 1"
| "result_value GOOD = 2"
| "result_value EASY = 3"

definition ReviewResult_of :: "int \<Rightarrow> py_error + ReviewResult" where
  "ReviewResult_of v =
     (if v = 0 then Inr AGAIN else if v = 1 then Inr HARD else if v = 2 then Inr GOOD
      else if v = 3 then Inr EASY else Inl ValueError)"

text \<open>
  \<^verbatim>\<open>datetime.isoformat\<close> and \<^verbatim>\<open>datetime.fromisoformat\<close> belong to Python's library, whose
  accepted formats differ between versions: the two are parameters \<open>isoformat\<close> and
  \<open>fromisoformat\<close> of export and import, \<open>None\<close> standing for the ValueError of an
  invalid string.
\<close>

definition export_card :: "(datetime \<Rightarrow> string) \<Rightarrow> ReviewData \<Rightarrow> card_data" where
  "export_card isoformat d =
     \<lparr> cd_ease_factor = Some (ease_factor d),
       cd_interval = Some (interval d),
       cd_repetition = Some (repetition d),
       cd_last_review = map_option isoformat (last_review d),
       cd_next_review = map_option isoformat (next_review d),
       cd_total_reviews = Some (total_reviews d),
       cd_total_time_spent = Some (total_time_spent d),
       cd_learning_step = Some (learning_step d),
       cd_graduated = Some (graduated d),
       cd_response_times = Some (response_times d),
       cd_review_history =
         Some (map (\<lambda>(timestamp, result, time). (isoformat timestamp, result_value result, time))
                 (review_history d)) \<rparr>"

definition export_data :: "(datetime \<Rightarrow> string) \<Rightarrow> engine \<Rightarrow> snapshot" where
  "export_data isoformat e = map (\<lambda>(card_id, d). (card_id, export_card isoformat d)) e"

definition get_or :: "'a option \<Rightarrow> 'a \<Rightarrow> 'a" where
  "get_or v dflt = (case v of None \<Rightarrow> dflt | Some x \<Rightarrow> x)"

text \<open>\<^verbatim>\<open>if card_data.get(key): ... = datetime.fromisoformat(card_data[key])\<close>: a missing key,
  a null and the empty string are all falsy and leave the field \<open>None\<close>.\<close>

definition import_timestamp :: "(string \<Rightarrow> datetime option) \<Rightarrow> string option \<Rightarrow> py_error + datetime option" where
  "import_timestamp fromisoformat v =
     (case v of
        None \<Rightarrow> Inr None
      | Some s \<Rightarrow>
          (if s = [] then Inr None
           else (case fromisoformat s of None \<Rightarrow> Inl ValueError | Some dt \<Rightarrow> Inr (Some dt))))"

fun import_history ::
  "(string \<Rightarrow> datetime option) \<Rightarrow> (string \<times> int \<times> real) list
     \<Rightarrow> py_error + (datetime \<times> ReviewResult \<times> real) list" where
  "import_history fromisoformat [] = Inr []"
| "import_history fromisoformat ((timestamp_str, result_val, time) # rest) =
     (case fromisoformat timestamp_str of
        None \<Rightarrow> Inl ValueError
      | Some timestamp \<Rightarrow>
          (case ReviewResult_of result_val of
             Inl err \<Rightarrow> Inl err
           | Inr result \<Rightarrow>
               (case import_history fromisoformat rest of
                  Inl err \<Rightarrow> Inl err
                | Inr h \<Rightarrow> Inr ((timestamp, result, time) # h))))"

text \<open>The body of the loop of \<^verbatim>\<open>import_data\<close> up to, and without, the final assignment to
  \<^verbatim>\<open>self.review_data[card_id]\<close>.\<close>

definition import_card :: "(string \<Rightarrow> datetime option) \<Rightarrow> card_data \<Rightarrow> py_error + ReviewData" where
  "import_card fromisoformat cd =
     (let r = new_ReviewData
               \<lparr> ease_factor := get_or (cd_ease_factor cd) 2.5,
                 interval := get_or (cd_interval cd) 1,
                 repetition := get_or (cd_repetition cd) 0,
                 total_reviews := get_or (cd_total_reviews cd) 0,
                 total_time_spent := get_or (cd_total_time_spent cd) 0,
                 learning_step := get_or (cd_learning_step cd) 0,
                 graduated := get_or (cd_graduated cd) False,
                 response_times := get_or (cd_response_times cd) [] \<rparr>
      in case import_timestamp fromisoformat (cd_last_review cd) of
           Inl err \<Rightarrow> Inl err
         | Inr lr \<Rightarrow>
             (case import_timestamp fromisoformat (cd_next_review cd) of
                Inl err \<Rightarrow> Inl err
              | Inr nr \<Rightarrow>
                  (case import_history fromisoformat (get_or (cd_review_history cd) []) of
                     Inl err \<Rightarrow> Inl err
                   | Inr h \<Rightarrow>
                       Inr (r\<lparr> last_review := lr, next_review := nr, review_history := h \<rparr>))))"

fun import_data ::
  "(string \<Rightarrow> datetime option) \<Rightarrow> snapshot \<Rightarrow> engine \<Rightarrow> engine \<times> py_error option" where
  "import_data fromisoformat [] e = (e, None)"
| "import_data fromisoformat ((card_id, cd) # rest) e =
     (case import_card fromisoformat cd of
        Inl err \<Rightarrow> (e, Some err)
      | Inr r \<Rightarrow> import_data fromisoformat rest (AList.update card_id r e))"

section \<open>Sequences of public operations\<close>

text \<open>
  A caller may catch an exception and go on: a run keeps the engine each call leaves
  behind, whether the call returned or raised.
\<close>

datatype op =
    Review string ReviewResult real int int int
  | GetDue "string list" int
  | GetStats "string list" int
  | Export
  | Import snapshot

fun is_Review :: "op \<Rightarrow> bool" where
  "is_Review (Review card_id result response_time t1 t2 t3) = True"
| "is_Review other = False"

fun exec_op :: "(string \<Rightarrow> datetime option) \<Rightarrow> op \<Rightarrow> engine \<Rightarrow> engine" where
  "exec_op fromisoformat (Review card_id result response_time t1 t2 t3) e =
     fst (review_card card_id result response_time t1 t2 t3 e)"
| "exec_op fromisoformat (GetDue card_ids t) e = fst (get_due_cards t card_ids e)"
| "exec_op fromisoformat (GetStats card_ids t) e = fst (get_study_stats t card_ids e)"
| "exec_op fromisoformat Export e = e"
| "exec_op fromisoformat (Import snap) e = fst (import_data fromisoformat snap e)"

fun run :: "(string \<Rightarrow> datetime option) \<Rightarrow> op list \<Rightarrow> engine \<Rightarrow> engine" where
  "run fromisoformat [] e = e"
| "run fromisoformat (x # xs) e = run fromisoformat xs (exec_op fromisoformat x e)"


section \<open>A concrete ISO-8601 codec for closed examples\<close>

text \<open>
  For theorems about one concrete snapshot the two library parameters are instantiated
  with a codec for the strings \<^verbatim>\<open>isoformat()\<close> emits,
  \<^verbatim>\<open>YYYY-MM-DDTHH:MM:SS[.ffffff][+HH:MM]\<close>, with the proleptic Gregorian calendar of
  Python's \<^verbatim>\<open>datetime\<close> (UTC offsets in whole minutes). The general theorems do not
  depend on it.
\<close>

definition digit_val :: "char \<Rightarrow> int option" where
  "digit_val c = (let n = (of_char c :: int) in if 48 \<le> n \<and> n \<le> 57 then Some (n - 48) else None)"

fun number_val :: "int \<Rightarrow> string \<Rightarrow> int option" where
  "number_val acc [] = Some acc"
| "number_val acc (c # cs) =
     (case digit_val c of None \<Rightarrow> None | Some v \<Rightarrow> number_val (10 * acc + v) cs)"

definition fixed_number :: "nat \<Rightarrow> nat \<Rightarrow> string \<Rightarrow> int option" where
  "fixed_number pos len s =
     (if pos + len \<le> length s then number_val 0 (take len (drop pos s)) else None)"

definition is_leap :: "int \<Rightarrow> bool" where
  "is_leap y = (if y mod 400 = 0 then True else if y mod 100 = 0 then False else y mod 4 = 0)"

definition days_in_month :: "int \<Rightarrow> int \<Rightarrow> int" where
  "days_in_month y m =
     (if m = 2 then (if is_leap y then 29 else 28)
      else if m = 4 \<or> m = 6 \<or> m = 9 \<or> m = 11 then 30 else 31)"

definition days_before_year :: "int \<Rightarrow> int" where
  "days_before_year y = (y - 1) * 365 + (y - 1) div 4 - (y - 1) div 100 + (y - 1) div 400"

definition days_before_month :: "int \<Rightarrow> int \<Rightarrow> int" where
  "days_before_month y m = sum_list (map (days_in_month y) [1 .. m - 1])"

definition ymd2ord :: "int \<Rightarrow> int \<Rightarrow> int \<Rightarrow> int" where
  "ymd2ord y m d = days_before_year y + days_before_month y m + d"

definition parse_fraction :: "string \<Rightarrow> (int \<times> string) option" where
  "parse_fraction s =
     (if s = [] then Some (0, s)
      else if hd s = CHR ''.'' then
        (case fixed_number 1 6 s of None \<Rightarrow> None | Some us \<Rightarrow> Some (us, drop 7 s))
      else Some (0, s))"

definition parse_offset :: "string \<Rightarrow> int option option" where
  "parse_offset s =
     (if s = [] then Some None
      else if length s = 6 \<and> s ! 3 = CHR '':'' then
        (let sign = (if s ! 0 = CHR ''+'' then 1 else if s ! 0 = CHR ''-'' then - 1 else 0 :: int)
         in case (fixed_number 1 2 s, fixed_number 4 2 s) of
              (Some hh, Some mm) \<Rightarrow>
                (if sign = 0 then None
                 else if hh < 24 \<and> mm < 60 then Some (Some (sign * (hh * 3600 + mm * 60) * 1000000))
                 else None)
            | other \<Rightarrow> None)
      else None)"

definition py_fromisoformat :: "string \<Rightarrow> datetime option" where
  "py_fromisoformat s =
     (if 19 \<le> length s \<and> s ! 4 = CHR ''-'' \<and> s ! 7 = CHR ''-'' \<and> s ! 10 = CHR ''T''
         \<and> s ! 13 = CHR '':'' \<and> s ! 16 = CHR '':'' then
        (case (fixed_number 0 4 s, fixed_number 5 2 s, fixed_number 8 2 s,
               fixed_number 11 2 s, fixed_number 14 2 s, fixed_number 17 2 s) of
           (Some y, Some m, Some d, Some h, Some mi, Some sec) \<Rightarrow>
             (if 1 \<le> y \<and> 1 \<le> m \<and> m \<le> 12 \<and> 1 \<le> d \<and> d \<le> days_in_month y m
                 \<and> h < 24 \<and> mi < 60 \<and> sec < 60 then
                (case parse_fraction (drop 19 s) of
                   None \<Rightarrow> None
                 | Some (us, rest) \<Rightarrow>
                     (let l = (((ymd2ord y m d - 1) * 24 + h) * 60 + mi) * 60000000
                              + sec * 1000000 + us
                      in case parse_offset rest of
                           None \<Rightarrow> None
                         | Some None \<Rightarrow> Some (Naive l)
                         | Some (Some off) \<Rightarrow> Some (Aware l off)))
              else None)
         | other \<Rightarrow> None)
      else None)"

definition pad2 :: "int \<Rightarrow> string" where
  "pad2 n = [char_of (48 + n div 10 mod 10), char_of (48 + n mod 10)]"

definition pad4 :: "int \<Rightarrow> string" where
  "pad4 n = pad2 (n div 100) @ pad2 (n mod 100)"

definition pad6 :: "int \<Rightarrow> string" where
  "pad6 n = pad2 (n div 10000) @ pad4 (n mod 10000)"

fun find_month :: "int \<Rightarrow> int \<Rightarrow> int list \<Rightarrow> int \<times> int" where
  "find_month y n [] = (12, n + 1)"
| "find_month y n (m # ms) =
     (if n < days_in_month y m then (m, n + 1) else find_month y (n - days_in_month y m) ms)"

definition ord2ymd :: "int \<Rightarrow> int \<times> int \<times> int" where
  "ord2ymd ordinal =
     (let n = ordinal - 1;
          n400 = n div 146097; r400 = n mod 146097;
          n100 = r400 div 36524; r100 = r400 mod 36524;
          n4 = r100 div 1461; r4 = r100 mod 1461;
          n1 = r4 div 365; r1 = r4 mod 365;
          year = n400 * 400 + n100 * 100 + n4 * 4 + n1 + 1
      in if n1 = 4 \<or> n100 = 4 then (year - 1, 12, 31)
         else (year, find_month year r1 [1 .. 12]))"

definition offset_string :: "int \<Rightarrow> string" where
  "offset_string off =
     (let a = \<bar>off\<bar> div 60000000
      in (if off < 0 then ''-'' else ''+'') @ pad2 (a div 60) @ '':'' @ pad2 (a mod 60))"

definition py_isoformat :: "datetime \<Rightarrow> string" where
  "py_isoformat dt =
     (let l = local_micros dt;
          us = l mod 1000000; secs = l div 1000000;
          (y, m, d) = ord2ymd (secs div 86400 + 1)
      in pad4 y @ ''-'' @ pad2 m @ ''-'' @ pad2 d @ ''T''
         @ pad2 (secs div 3600 mod 24) @ '':'' @ pad2 (secs div 60 mod 60) @ '':'' @ pad2 (secs mod 60)
         @ (if us = 0 then [] else ''.'' @ pad6 us)
         @ (case dt of Naive x \<Rightarrow> [] | Aware x off \<Rightarrow> offset_string off))"

section \<open>Auxiliary notions for the properties\<close>

text \<open>What \<^verbatim>\<open>review_card\<close> does to the record it fetched, as one function of that record.\<close>

definition review_record ::
  "ReviewResult \<Rightarrow> real \<Rightarrow> int \<Rightarrow> int \<Rightarrow> int \<Rightarrow> ReviewData \<Rightarrow> ReviewData \<times> py_error option" where
  "review_record result response_time t1 t2 t3 d0 =
     (let d1 = add_review t1 result response_time d0;
          d2 = d1\<lparr> last_review := Some (utc_now t2) \<rparr>;
          d3 = (if \<not> graduated d2 then process_learning_review d2 result
                else process_graduated_review d2 result)
      in calculate_next_review t3 d3)"

text \<open>The snapshot entry \<^verbatim>\<open>{}\<close>: every key absent.\<close>

definition empty_card :: card_data where
  "empty_card =
     \<lparr> cd_ease_factor = None, cd_interval = None, cd_repetition = None, cd_last_review = None,
       cd_next_review = None, cd_total_reviews = None, cd_total_time_spent = None,
       cd_learning_step = None, cd_graduated = None, cd_response_times = None,
       cd_review_history = None \<rparr>"

text \<open>The scheduling fields of a record, for reading off concrete runs.\<close>

definition schedule_of :: "ReviewData \<Rightarrow> bool \<times> int \<times> int \<times> real" where
  "schedule_of d = (graduated d, repetition d, interval d, ease_factor d)"


text \<open>The instant of an aware datetime (its reading less its UTC offset), and the
  specification's notion of a due card at clock reading \<open>t\<close>.\<close>

fun instant :: "datetime \<Rightarrow> int" where
  "instant (Aware l off) = l - off"
| "instant (Naive l) = l"

definition is_due :: "int \<Rightarrow> engine \<Rightarrow> string \<Rightarrow> bool" where
  "is_due t e card_id =
     (case map_of e card_id of
        None \<Rightarrow> True
      | Some d \<Rightarrow> (case next_review d of None \<Rightarrow> True | Some nr \<Rightarrow> instant nr \<le> t))"

definition aware_next_review :: "ReviewData \<Rightarrow> bool" where
  "aware_next_review d = (case next_review d of None \<Rightarrow> True | Some nr \<Rightarrow> \<not> is_naive nr)"

text \<open>The mapping \<open>e\<close> extended by a default record for every listed id it lacks.\<close>

definition with_defaults :: "string list \<Rightarrow> engine \<Rightarrow> string \<Rightarrow> ReviewData option" where
  "with_defaults card_ids e k =
     (case map_of e k of
        Some d \<Rightarrow> Some d
      | None \<Rightarrow> (if k \<in> set card_ids then Some new_ReviewData else None))"


definition bad_history_item :: "(string \<Rightarrow> datetime option) \<Rightarrow> string \<times> int \<times> real \<Rightarrow> bool" where
  "bad_history_item fromisoformat item =
     (case item of (timestamp_str, result_val, time) \<Rightarrow>
        fromisoformat timestamp_str = None \<or> result_val < 0 \<or> 3 < result_val)"


text \<open>The timestamp a well-formed entry field denotes under the parser.\<close>

definition parsed_timestamp :: "(string \<Rightarrow> datetime option) \<Rightarrow> string option \<Rightarrow> datetime option" where
  "parsed_timestamp fromisoformat v =
     (case v of None \<Rightarrow> None | Some s \<Rightarrow> if s = [] then None else fromisoformat s)"

text \<open>All timestamps a record holds.\<close>

definition timestamps_of :: "ReviewData \<Rightarrow> datetime set" where
  "timestamps_of d = set_option (last_review d) \<union> set_option (next_review d)
                     \<union> fst ` set (review_history d)"

text \<open>The records an engine holds.\<close>

definition records :: "engine \<Rightarrow> ReviewData set" where
  "records e = snd ` set e"

text \<open>The snapshot entries a run passes to \<^verbatim>\<open>import_data\<close>.\<close>

fun op_entries :: "op \<Rightarrow> (string \<times> card_data) list" where
  "op_entries (Import snap) = snap"
| "op_entries other = []"

definition imported_entries :: "op list \<Rightarrow> (string \<times> card_data) list" where
  "imported_entries ops = concat (map op_entries ops)"

text \<open>Conditions on one snapshot entry, read with the defaults of \<^verbatim>\<open>import_data\<close>: its
  scheduling fields respect the documented invariants; its \<open>response_times\<close> fit the
  capacity.\<close>

definition schedule_sound :: "card_data \<Rightarrow> bool" where
  "schedule_sound cd =
     (MIN_EASE_FACTOR \<le> get_or (cd_ease_factor cd) 2.5
      \<and> (if get_or (cd_graduated cd) False then 1 \<le> get_or (cd_interval cd) 1 else True))"


text \<open>A snapshot entry whose \<open>next_review\<close>, once parsed, is not naive.\<close>

definition next_review_aware :: "(string \<Rightarrow> datetime option) \<Rightarrow> card_data \<Rightarrow> bool" where
  "next_review_aware fromisoformat cd =
     (case parsed_timestamp fromisoformat (cd_next_review cd) of
        None \<Rightarrow> True
      | Some nr \<Rightarrow> \<not> is_naive nr)"

text \<open>An example run: an import with a naive and an offset timestamp, then reviews of two
  cards at clock readings on 2026-01-01 (UTC), one of them with a microsecond part.\<close>

definition example_ops :: "op list" where
  "example_ops =
     [Import [(''n'', empty_card\<lparr> cd_last_review := Some ''2025-06-01T12:00:00'',
                  cd_next_review := Some ''2025-06-02T12:00:00+02:00'',
                  cd_review_history := Some [(''2025-06-01T12:00:00'', 3, 1.5)] \<rparr>)],
      Review ''c1'' GOOD 5 63902822400000000 63902822400000000 63902822400000000,
      Review ''c1'' EASY 2.5 63902822460123456 63902822460123456 63902822460123456,
      Review ''c2'' AGAIN 3 63902822470000000 63902822470000000 63902822470000000]"

text \<open>The invariant behind the interval bound.\<close>

definition interval_inv :: "ReviewData \<Rightarrow> bool" where
  "interval_inv d = (MIN_EASE_FACTOR \<le> ease_factor d \<and> (graduated d \<longrightarrow> 1 \<le> interval d))"

section \<open>Basic facts about the embedding\<close>

lemma map_of_update_same: "map_of (AList.update k v e) k = Some v"
  by (simp add: update_conv')

lemma review_card_eq:
  "review_card card_id result response_time t1 t2 t3 e =
     (AList.update card_id
        (fst (review_record result response_time t1 t2 t3 (fst (get_review_data card_id e))))
        (snd (get_review_data card_id e)),
      snd (review_record result response_time t1 t2 t3 (fst (get_review_data card_id e))))"
  by (simp add: review_card_def review_record_def Let_def split: prod.splits)

lemma next_review_frame:
  "ease_factor (fst (calculate_next_review t d)) = ease_factor d"
  "interval (fst (calculate_next_review t d)) = interval d"
  "repetition (fst (calculate_next_review t d)) = repetition d"
  "graduated (fst (calculate_next_review t d)) = graduated d"
  "response_times (fst (calculate_next_review t d)) = response_times d"
  by (simp_all add: calculate_next_review_def set_next_review_def Let_def split: sum.splits)

lemma add_review_frame:
  "ease_factor (add_review t r rt d) = ease_factor d"
  "interval (add_review t r rt d) = interval d"
  "repetition (add_review t r rt d) = repetition d"
  "graduated (add_review t r rt d) = graduated d"
  by (simp_all add: add_review_def Let_def)

section \<open>A lapse in the learning phase\<close>

text \<open>
  Claim C10. Let \<open>d\<close> be the record \<^verbatim>\<open>review_card\<close> fetches for the card (the stored one, or
  the default one it creates). If \<open>d\<close> is not graduated, a review with AGAIN or HARD
  leaves \<open>ease_factor\<close>, \<open>interval\<close> and \<open>repetition\<close> as they were and the card stays
  in the learning phase; this holds whether or not the date arithmetic at the end of the
  call raises. By contrast AGAIN on a graduated record lowers the ease factor by 0.2,
  down to the minimum.
\<close>

theorem learning_lapse_keeps_schedule:
  assumes "d = fst (get_review_data card_id e)"
    and "result = AGAIN \<or> result = HARD"
  shows "\<exists>d'. map_of (fst (review_card card_id result response_time t1 t2 t3 e)) card_id = Some d'
           \<and> (\<not> graduated d \<longrightarrow>
                ease_factor d' = ease_factor d \<and> interval d' = interval d
                \<and> repetition d' = repetition d \<and> \<not> graduated d')
           \<and> (graduated d \<and> result = AGAIN \<longrightarrow>
                ease_factor d' = max MIN_EASE_FACTOR (ease_factor d - 0.2))"
  using assms
  by (auto simp: review_card_eq map_of_update_same review_record_def Let_def next_review_frame
      add_review_frame process_learning_review_def process_graduated_review_def)

theorem learning_lapse_keeps_schedule_witness:
  "(HARD = AGAIN \<or> HARD = HARD)
   \<and> \<not> graduated (fst (get_review_data ''c1'' (fst (review_card ''c1'' GOOD 5 0 0 0 []))))
   \<and> (\<exists>d'. map_of (fst (review_card ''c1'' HARD 7 60 60 60 (fst (review_card ''c1'' GOOD 5 0 0 0 []))))
              ''c1'' = Some d'
            \<and> ease_factor d' = 2.5 \<and> interval d' = 1 \<and> repetition d' = 0 \<and> \<not> graduated d')"
proof -
  have g: "fst (get_review_data ''c1'' (fst (review_card ''c1'' GOOD 5 0 0 0 [])))
           = new_ReviewData\<lparr> review_history := [(Aware 0 0, GOOD, 5)], response_times := [5],
               total_reviews := 1, total_time_spent := 5, last_review := Some (Aware 0 0),
               learning_step := 1, next_review := Some (Aware 600000000 0) \<rparr>"
    by code_simp
  show ?thesis
    using learning_lapse_keeps_schedule
      [where result = HARD and card_id = "''c1''" and e = "fst (review_card ''c1'' GOOD 5 0 0 0 [])"
         and response_time = 7 and ?t1.0 = 60 and ?t2.0 = 60 and ?t3.0 = 60, OF refl]
    by (simp add: g new_ReviewData_def)
qed

section \<open>Invariants of all records along a run\<close>

lemma records_update: "records (AList.update k v e) \<subseteq> insert v (records e)"
  by (induction e) (auto simp: records_def)

lemma records_get_review_data:
  "records (snd (get_review_data k e)) \<subseteq> insert new_ReviewData (records e)"
  "fst (get_review_data k e) \<in> insert new_ReviewData (records e)"
proof -
  have in_rec: "\<And>d. map_of e k = Some d \<Longrightarrow> d \<in> records e"
    by (force simp: records_def dest: map_of_SomeD)
  show "records (snd (get_review_data k e)) \<subseteq> insert new_ReviewData (records e)"
    using records_update [of k new_ReviewData e]
    by (auto simp: get_review_data_def split: option.splits)
  show "fst (get_review_data k e) \<in> insert new_ReviewData (records e)"
    using in_rec by (auto simp: get_review_data_def split: option.splits)
qed

lemma records_review_card:
  assumes "P new_ReviewData"
    and "\<And>d. P d \<Longrightarrow> P (fst (review_record result rt t1 t2 t3 d))"
    and "\<forall>d\<in>records e. P d"
  shows "\<forall>d\<in>records (fst (review_card card_id result rt t1 t2 t3 e)). P d"
proof
  fix d assume "d \<in> records (fst (review_card card_id result rt t1 t2 t3 e))"
  then have "d = fst (review_record result rt t1 t2 t3 (fst (get_review_data card_id e)))
             \<or> d \<in> records (snd (get_review_data card_id e))"
    using records_update by (fastforce simp: review_card_eq)
  moreover have "P (fst (get_review_data card_id e))"
    using records_get_review_data(2) [of card_id e] assms(1,3) by auto
  moreover have "\<forall>x\<in>records (snd (get_review_data card_id e)). P x"
    using records_get_review_data(1) [of card_id e] assms(1,3) by auto
  ultimately show "P d" using assms(2) by auto
qed

lemma records_get_due_loop:
  "records (fst (get_due_loop now card_ids due e)) \<subseteq> insert new_ReviewData (records e)"
proof (induction card_ids arbitrary: due e)
  case Nil
  then show ?case by auto
next
  case (Cons card_id rest)
  show ?case
    using records_get_review_data(1) [of card_id e]
      Cons.IH [of _ "snd (get_review_data card_id e)"]
    by (auto simp: split_beta Let_def split: option.splits sum.splits)
qed

lemma records_stats_loop:
  "records (fst (stats_loop now card_ids c e)) \<subseteq> insert new_ReviewData (records e)"
proof (induction card_ids arbitrary: c e)
  case Nil
  then show ?case by auto
next
  case (Cons card_id rest)
  show ?case
    using records_get_review_data(1) [of card_id e]
      Cons.IH [of _ "snd (get_review_data card_id e)"]
    by (auto simp: split_beta Let_def split: option.splits sum.splits)
qed

lemma records_get_due_cards:
  "records (fst (get_due_cards t card_ids e)) \<subseteq> insert new_ReviewData (records e)"
  by (simp add: get_due_cards_def records_get_due_loop)

lemma records_get_study_stats:
  "records (fst (get_study_stats t card_ids e)) \<subseteq> insert new_ReviewData (records e)"
  using records_stats_loop [of "utc_now t" card_ids zero_counters e]
  by (auto simp: get_study_stats_def split: prod.splits sum.splits)

lemma records_import_data:
  assumes "\<And>k cd r. (k, cd) \<in> set snap \<Longrightarrow> import_card f cd = Inr r \<Longrightarrow> P r"
    and "\<forall>d\<in>records e. P d"
  shows "\<forall>d\<in>records (fst (import_data f snap e)). P d"
  using assms
proof (induction snap arbitrary: e)
  case Nil
  then show ?case by simp
next
  case (Cons x snap)
  obtain k cd where x: "x = (k, cd)" by (cases x)
  show ?case
  proof (cases "import_card f cd")
    case (Inl err)
    then show ?thesis using Cons.prems(2) by (simp add: x)
  next
    case (Inr r)
    have "P r" using Cons.prems(1) [of k cd r] Inr by (simp add: x)
    then have "\<forall>d\<in>records (AList.update k r e). P d"
      using records_update [of k r e] Cons.prems(2) by auto
    moreover have "\<And>k cd r. (k, cd) \<in> set snap \<Longrightarrow> import_card f cd = Inr r \<Longrightarrow> P r"
      using Cons.prems(1) by (meson list.set_intros(2))
    ultimately have "\<forall>d\<in>records (fst (import_data f snap (AList.update k r e))). P d"
      using Cons.IH [of "AList.update k r e"] by blast
    then show ?thesis by (simp add: x Inr)
  qed
qed

lemma run_invariant:
  assumes "P new_ReviewData"
    and "\<And>result rt t1 t2 t3 d. P d \<Longrightarrow> P (fst (review_record result rt t1 t2 t3 d))"
    and "\<And>snap k cd r. Import snap \<in> set ops \<Longrightarrow> (k, cd) \<in> set snap
           \<Longrightarrow> import_card f cd = Inr r \<Longrightarrow> P r"
    and "\<forall>d\<in>records e. P d"
  shows "\<forall>d\<in>records (run f ops e). P d"
  using assms(3,4)
proof (induction ops arbitrary: e)
  case Nil
  then show ?case by simp
next
  case (Cons x ops)
  have "\<forall>d\<in>records (exec_op f x e). P d"
  proof (cases x)
    case (Review card_id result rt t1 t2 t3)
    then show ?thesis
      using records_review_card [of P result rt t1 t2 t3 e card_id] assms(1,2) Cons.prems(2)
      by simp
  next
    case (GetDue card_ids t)
    then show ?thesis
      using records_get_due_cards [of t card_ids e] assms(1) Cons.prems(2) by auto
  next
    case (GetStats card_ids t)
    then show ?thesis
      using records_get_study_stats [of t card_ids e] assms(1) Cons.prems(2) by auto
  next
    case Export
    then show ?thesis using Cons.prems(2) by simp
  next
    case (Import snap)
    have "\<And>k cd r. (k, cd) \<in> set snap \<Longrightarrow> import_card f cd = Inr r \<Longrightarrow> P r"
      using Cons.prems(1) [of snap] Import by simp
    then have "\<forall>d\<in>records (fst (import_data f snap e)). P d"
      using records_import_data [of snap f P e] Cons.prems(2) by blast
    then show ?thesis using Import by simp
  qed
  moreover have "\<And>snap k cd r. Import snap \<in> set ops \<Longrightarrow> (k, cd) \<in> set snap
           \<Longrightarrow> import_card f cd = Inr r \<Longrightarrow> P r"
    using Cons.prems(1) by (meson list.set_intros(2))
  ultimately show ?case using Cons.IH [of "exec_op f x e"] by simp
qed

section \<open>Bounds kept by every record\<close>

lemma review_record_ease:
  assumes "MIN_EASE_FACTOR \<le> ease_factor d \<and> ease_factor d \<le> MAX_EASE_FACTOR"
  shows "MIN_EASE_FACTOR \<le> ease_factor (fst (review_record result rt t1 t2 t3 d))
         \<and> ease_factor (fst (review_record result rt t1 t2 t3 d)) \<le> MAX_EASE_FACTOR"
  using assms
  by (cases result)
     (auto simp: review_record_def Let_def next_review_frame add_review_frame
        process_learning_review_def process_graduated_review_def update_ease_factor_def
        MIN_EASE_FACTOR_def MAX_EASE_FACTOR_def max_def min_def)

text \<open>
  Claim C1. Along every sequence of \<^verbatim>\<open>review_card\<close> calls on a fresh engine, and after every
  one of them (a prefix of a sequence is a sequence), each record has
  \<open>1.3 \<le> ease_factor \<le> 5.0\<close>: the default is 2.5 and each update path clamps. The
  bound also holds for the state a call leaves behind when its date arithmetic raises.
\<close>

theorem ease_factor_bounds:
  assumes "list_all is_Review ops"
  shows "\<forall>d\<in>records (run fromisoformat ops []).
           1.3 \<le> ease_factor d \<and> ease_factor d \<le> 5.0"
proof -
  have "\<forall>d\<in>records (run fromisoformat ops []).
          MIN_EASE_FACTOR \<le> ease_factor d \<and> ease_factor d \<le> MAX_EASE_FACTOR"
  proof (rule run_invariant)
    show "MIN_EASE_FACTOR \<le> ease_factor new_ReviewData
          \<and> ease_factor new_ReviewData \<le> MAX_EASE_FACTOR"
      by (simp add: new_ReviewData_def MIN_EASE_FACTOR_def MAX_EASE_FACTOR_def)
  next
    fix result rt t1 t2 t3 and d :: ReviewData
    assume "MIN_EASE_FACTOR \<le> ease_factor d \<and> ease_factor d \<le> MAX_EASE_FACTOR"
    then show "MIN_EASE_FACTOR \<le> ease_factor (fst (review_record result rt t1 t2 t3 d))
               \<and> ease_factor (fst (review_record result rt t1 t2 t3 d)) \<le> MAX_EASE_FACTOR"
      by (rule review_record_ease)
  next
    fix snap k cd and r :: ReviewData
    assume "Import snap \<in> set ops"
    then have False using assms by (auto simp: list_all_iff)
    then show "MIN_EASE_FACTOR \<le> ease_factor r \<and> ease_factor r \<le> MAX_EASE_FACTOR" ..
  next
    show "\<forall>d\<in>records []. MIN_EASE_FACTOR \<le> ease_factor d \<and> ease_factor d \<le> MAX_EASE_FACTOR"
      by (simp add: records_def)
  qed
  then show ?thesis by (simp add: MIN_EASE_FACTOR_def MAX_EASE_FACTOR_def)
qed

text \<open>A run of five reviews of two cards, with the values it reaches.\<close>

theorem ease_factor_bounds_witness:
  "list_all is_Review [Review ''c1'' EASY 2 0 0 0, Review ''c1'' EASY 2 0 0 0,
       Review ''c1'' EASY 2 0 0 0, Review ''c1'' HARD 9 0 0 0, Review ''c2'' AGAIN 4 0 0 0]
   \<and> records (run py_fromisoformat [Review ''c1'' EASY 2 0 0 0, Review ''c1'' EASY 2 0 0 0,
       Review ''c1'' EASY 2 0 0 0, Review ''c1'' HARD 9 0 0 0, Review ''c2'' AGAIN 4 0 0 0] [])
       \<subseteq> {d. 1.3 \<le> ease_factor d \<and> ease_factor d \<le> 5.0}
   \<and> map (schedule_of \<circ> snd) (run py_fromisoformat [Review ''c1'' EASY 2 0 0 0,
       Review ''c1'' EASY 2 0 0 0, Review ''c1'' EASY 2 0 0 0, Review ''c1'' HARD 9 0 0 0,
       Review ''c2'' AGAIN 4 0 0 0] []) = [(True, 2, 6, 2.35), (False, 0, 1, 2.5)]"
proof -
  have r: "list_all is_Review [Review ''c1'' EASY 2 0 0 0, Review ''c1'' EASY 2 0 0 0,
       Review ''c1'' EASY 2 0 0 0, Review ''c1'' HARD 9 0 0 0, Review ''c2'' AGAIN 4 0 0 0]"
    by simp
  have v: "map (schedule_of \<circ> snd) (run py_fromisoformat [Review ''c1'' EASY 2 0 0 0,
       Review ''c1'' EASY 2 0 0 0, Review ''c1'' EASY 2 0 0 0, Review ''c1'' HARD 9 0 0 0,
       Review ''c2'' AGAIN 4 0 0 0] []) = [(True, 2, 6, 2.35), (False, 0, 1, 2.5)]"
    by code_simp
  show ?thesis
    using r v ease_factor_bounds [OF r, of py_fromisoformat] by blast
qed


lemma imported_entries_mem:
  "Import snap \<in> set ops \<Longrightarrow> x \<in> set snap \<Longrightarrow> x \<in> set (imported_entries ops)"
  by (force simp: imported_entries_def)

lemma import_card_fields:
  assumes "import_card f cd = Inr r"
  shows "ease_factor r = get_or (cd_ease_factor cd) 2.5"
    and "interval r = get_or (cd_interval cd) 1"
    and "repetition r = get_or (cd_repetition cd) 0"
    and "graduated r = get_or (cd_graduated cd) False"
    and "response_times r = get_or (cd_response_times cd) []"
    and "last_review r = parsed_timestamp f (cd_last_review cd)"
    and "next_review r = parsed_timestamp f (cd_next_review cd)"
  using assms
  by (auto simp: import_card_def import_timestamp_def parsed_timestamp_def Let_def
      split: sum.splits option.splits if_splits)

lemma py_int_ge_1: "1 \<le> x \<Longrightarrow> 1 \<le> py_int x"
  by (simp add: py_int_def le_floor_iff)

lemma product_ge_1: "(1::real) \<le> a \<Longrightarrow> 1 \<le> b \<Longrightarrow> 1 \<le> a * b"
  using mult_mono [of 1 a 1 b] by simp

lemma update_ease_factor_ge:
  "MIN_EASE_FACTOR \<le> ease_factor d \<Longrightarrow> MIN_EASE_FACTOR \<le> ease_factor (update_ease_factor d result)"
  by (cases result) (auto simp: update_ease_factor_def MIN_EASE_FACTOR_def MAX_EASE_FACTOR_def)

lemma update_ease_factor_frame:
  "interval (update_ease_factor d result) = interval d"
  "repetition (update_ease_factor d result) = repetition d"
  "graduated (update_ease_factor d result) = graduated d"
  by (simp_all add: update_ease_factor_def)

lemma process_graduated_review_inv:
  assumes "interval_inv d" and "graduated d"
  shows "interval_inv (process_graduated_review d result)"
proof (cases "result = AGAIN")
  case True
  then show ?thesis
    by (simp add: process_graduated_review_def interval_inv_def)
next
  case False
  define d1 where "d1 = update_ease_factor d result"
  have ef: "1.3 \<le> ease_factor d1"
    using update_ease_factor_ge [of d result] assms(1)
    by (simp add: d1_def interval_inv_def MIN_EASE_FACTOR_def)
  have iv: "1 \<le> interval d1" "graduated d1"
    using assms by (simp_all add: d1_def update_ease_factor_frame interval_inv_def)
  have a: "1 \<le> real_of_int (interval d1) * ease_factor d1"
    using product_ge_1 [of "real_of_int (interval d1)" "ease_factor d1"] ef iv by simp
  then have b: "1 \<le> real_of_int (interval d1) * ease_factor d1 * EASY_INTERVAL_FACTOR"
    using product_ge_1 [of "real_of_int (interval d1) * ease_factor d1" EASY_INTERVAL_FACTOR]
    by (simp add: EASY_INTERVAL_FACTOR_def)
  show ?thesis
    using False ef iv py_int_ge_1 [OF a] py_int_ge_1 [OF b]
    by (simp add: process_graduated_review_def Let_def interval_inv_def d1_def [symmetric]
        MIN_EASE_FACTOR_def)
qed

lemma process_learning_review_inv:
  assumes "interval_inv d" and "\<not> graduated d"
  shows "interval_inv (process_learning_review d result)"
  using assms
  by (auto simp: process_learning_review_def interval_inv_def Let_def EASY_INTERVAL_def
      GRADUATING_INTERVAL_def)

lemma review_record_interval_inv:
  assumes "interval_inv d"
  shows "interval_inv (fst (review_record result rt t1 t2 t3 d))"
proof -
  define d2 where "d2 = (add_review t1 result rt d)\<lparr> last_review := Some (utc_now t2) \<rparr>"
  have d2: "interval_inv d2"
    using assms by (simp add: d2_def interval_inv_def add_review_frame)
  define d3 where "d3 = (if \<not> graduated d2 then process_learning_review d2 result
                         else process_graduated_review d2 result)"
  have "interval_inv d3"
    using d2 process_learning_review_inv process_graduated_review_inv by (simp add: d3_def)
  moreover have "fst (review_record result rt t1 t2 t3 d) = fst (calculate_next_review t3 d3)"
    by (simp add: review_record_def Let_def d3_def d2_def)
  ultimately show ?thesis
    by (simp add: interval_inv_def next_review_frame)
qed

text \<open>
  Claim C3, amended. The claim as stated fails: \<^verbatim>\<open>import_data\<close> stores \<open>interval\<close> and
  \<open>graduated\<close> unchecked (see the counterexample below). What holds: after every sequence
  of reviews, queries, exports and imports on a fresh engine in which every imported entry
  has \<open>ease_factor \<ge> 1.3\<close> and, when graduated, \<open>interval \<ge> 1\<close>, every graduated
  record has \<open>interval \<ge> 1\<close>.
\<close>

theorem graduated_interval_positive:
  assumes "list_all (schedule_sound \<circ> snd) (imported_entries ops)"
  shows "\<forall>d\<in>records (run fromisoformat ops []). graduated d \<longrightarrow> 1 \<le> interval d"
proof -
  have "\<forall>d\<in>records (run fromisoformat ops []). interval_inv d"
  proof (rule run_invariant)
    show "interval_inv new_ReviewData"
      by (simp add: interval_inv_def new_ReviewData_def MIN_EASE_FACTOR_def)
  next
    fix result rt t1 t2 t3 and d :: ReviewData
    assume "interval_inv d"
    then show "interval_inv (fst (review_record result rt t1 t2 t3 d))"
      by (rule review_record_interval_inv)
  next
    fix snap k cd and r :: ReviewData
    assume "Import snap \<in> set ops" and "(k, cd) \<in> set snap"
      and r: "import_card fromisoformat cd = Inr r"
    then have "schedule_sound cd"
      using assms imported_entries_mem [of snap ops "(k, cd)"] by (force simp: list_all_iff)
    then show "interval_inv r"
      using import_card_fields(1,2,4) [OF r]
      by (auto simp: schedule_sound_def interval_inv_def split: if_splits)
  next
    show "\<forall>d\<in>records []. interval_inv d"
      by (simp add: records_def)
  qed
  then show ?thesis by (simp add: interval_inv_def)
qed





text \<open>Counterexample to C3 as stated: one import yields a graduated record with interval 0.\<close>

theorem graduated_interval_positive_counterexample:
  "map (schedule_of \<circ> snd)
     (run py_fromisoformat
        [Import [(''a'', empty_card\<lparr> cd_interval := Some 0, cd_graduated := Some True \<rparr>)]] [])
   = [(True, 0, 0, 2.5)]"
  by code_simp

text \<open>A run with an import and a review that satisfies the hypothesis of the theorem.\<close>

theorem graduated_interval_positive_witness:
  "list_all (schedule_sound \<circ> snd)
     (imported_entries
        [Import [(''a'', empty_card\<lparr> cd_ease_factor := Some 2, cd_interval := Some 3,
                     cd_repetition := Some 2, cd_graduated := Some True \<rparr>)],
         Review ''a'' GOOD 4 0 0 0, GetDue [''b''] 0])
   \<and> records
          (run py_fromisoformat
             [Import [(''a'', empty_card\<lparr> cd_ease_factor := Some 2, cd_interval := Some 3,
                          cd_repetition := Some 2, cd_graduated := Some True \<rparr>)],
              Review ''a'' GOOD 4 0 0 0, GetDue [''b''] 0] [])
       \<subseteq> {d. graduated d \<longrightarrow> 1 \<le> interval d}
   \<and> map (schedule_of \<circ> snd)
        (run py_fromisoformat
           [Import [(''a'', empty_card\<lparr> cd_ease_factor := Some 2, cd_interval := Some 3,
                        cd_repetition := Some 2, cd_graduated := Some True \<rparr>)],
            Review ''a'' GOOD 4 0 0 0, GetDue [''b''] 0] [])
      = [(True, 3, 5, 1.98), (False, 0, 1, 2.5)]"
proof -
  have h: "list_all (schedule_sound \<circ> snd)
     (imported_entries
        [Import [(''a'', empty_card\<lparr> cd_ease_factor := Some 2, cd_interval := Some 3,
                     cd_repetition := Some 2, cd_graduated := Some True \<rparr>)],
         Review ''a'' GOOD 4 0 0 0, GetDue [''b''] 0])"
    by code_simp
  have v: "map (schedule_of \<circ> snd)
        (run py_fromisoformat
           [Import [(''a'', empty_card\<lparr> cd_ease_factor := Some 2, cd_interval := Some 3,
                        cd_repetition := Some 2, cd_graduated := Some True \<rparr>)],
            Review ''a'' GOOD 4 0 0 0, GetDue [''b''] 0] [])
      = [(True, 3, 5, 1.98), (False, 0, 1, 2.5)]"
    by code_simp
  show ?thesis
    using h v graduated_interval_positive [OF h, of py_fromisoformat] by blast
qed



section \<open>The interval of a graduated card\<close>




section \<open>The queries\<close>

lemma map_of_get_review_data:
  "map_of (snd (get_review_data k e)) = with_defaults [k] e"
  by (rule ext) (auto simp: get_review_data_def with_defaults_def update_conv' split: option.splits)

lemma with_defaults_Nil: "with_defaults [] e = map_of e"
  by (rule ext) (simp add: with_defaults_def split: option.splits)

lemma with_defaults_step:
  assumes "map_of e1 = with_defaults [k] e"
  shows "with_defaults ks e1 = with_defaults (k # ks) e"
  by (rule ext) (auto simp: with_defaults_def assms split: option.splits)

lemma get_due_loop_adds_defaults:
  "\<exists>n\<le>length card_ids.
     map_of (fst (get_due_loop now card_ids due e)) = with_defaults (take n card_ids) e
     \<and> (\<forall>r. snd (get_due_loop now card_ids due e) = Inr r \<longrightarrow> n = length card_ids)"
proof (induction card_ids arbitrary: due e)
  case Nil
  then show ?case by (simp add: with_defaults_Nil)
next
  case (Cons k rest)
  let ?e1 = "snd (get_review_data k e)"
  let ?d = "fst (get_review_data k e)"
  have e1: "map_of ?e1 = with_defaults [k] e" by (rule map_of_get_review_data)
  have stop: "\<exists>n\<le>length (k # rest). map_of ?e1 = with_defaults (take n (k # rest)) e"
    using e1 by (intro exI [of _ 1]) simp
  have go: "\<exists>n\<le>length (k # rest).
       map_of (fst (get_due_loop now rest due' ?e1)) = with_defaults (take n (k # rest)) e
       \<and> (\<forall>r. snd (get_due_loop now rest due' ?e1) = Inr r \<longrightarrow> n = length (k # rest))" for due'
  proof -
    obtain m where m: "m \<le> length rest"
      "map_of (fst (get_due_loop now rest due' ?e1)) = with_defaults (take m rest) ?e1"
      "\<forall>r. snd (get_due_loop now rest due' ?e1) = Inr r \<longrightarrow> m = length rest"
      using Cons.IH [of due' ?e1] by blast
    show ?thesis
      using m with_defaults_step [OF e1, of "take m rest"]
      by (intro exI [of _ "Suc m"]) simp
  qed
  show ?case
  proof (cases "next_review ?d")
    case None
    then show ?thesis using go [of "due @ [k]"] by (simp add: split_beta)
  next
    case (Some nr)
    show ?thesis
    proof (cases "dt_le nr now")
      case (Inl err)
      then show ?thesis using stop Some by (simp add: split_beta)
    next
      case (Inr b)
      then show ?thesis
        using go [of "if b then due @ [k] else due"] Some by (simp add: split_beta)
    qed
  qed
qed

lemma stats_loop_adds_defaults:
  "\<exists>n\<le>length card_ids.
     map_of (fst (stats_loop now card_ids c e)) = with_defaults (take n card_ids) e
     \<and> (\<forall>r. snd (stats_loop now card_ids c e) = Inr r \<longrightarrow> n = length card_ids)"
proof (induction card_ids arbitrary: c e)
  case Nil
  then show ?case by (simp add: with_defaults_Nil)
next
  case (Cons k rest)
  let ?e1 = "snd (get_review_data k e)"
  let ?d = "fst (get_review_data k e)"
  have e1: "map_of ?e1 = with_defaults [k] e" by (rule map_of_get_review_data)
  have stop: "\<exists>n\<le>length (k # rest). map_of ?e1 = with_defaults (take n (k # rest)) e"
    using e1 by (intro exI [of _ 1]) simp
  have go: "\<exists>n\<le>length (k # rest).
       map_of (fst (stats_loop now rest c' ?e1)) = with_defaults (take n (k # rest)) e
       \<and> (\<forall>r. snd (stats_loop now rest c' ?e1) = Inr r \<longrightarrow> n = length (k # rest))" for c'
  proof -
    obtain m where m: "m \<le> length rest"
      "map_of (fst (stats_loop now rest c' ?e1)) = with_defaults (take m rest) ?e1"
      "\<forall>r. snd (stats_loop now rest c' ?e1) = Inr r \<longrightarrow> m = length rest"
      using Cons.IH [of c' ?e1] by blast
    show ?thesis
      using m with_defaults_step [OF e1, of "take m rest"]
      by (intro exI [of _ "Suc m"]) simp
  qed
  show ?case
  proof (cases "count_card_type now ?d c")
    case (Inl err)
    then show ?thesis using stop by (simp add: split_beta)
  next
    case (Inr c1)
    then show ?thesis using go [of "accumulate_stats ?d c1"] by (simp add: split_beta)
  qed
qed

text \<open>
  Claim C5, amended. The claim as stated fails: both queries fetch each listed id with
  \<^verbatim>\<open>get_review_data\<close>, which creates a default record for an id the engine lacks. What
  holds: \<^verbatim>\<open>get_due_cards\<close> and \<^verbatim>\<open>get_study_stats\<close> never change or remove an existing
  record; the mapping afterwards is the old one extended by a default record for each id of
  the prefix of the list that was processed, and that prefix is the whole list when the
  call returns (\<^verbatim>\<open>get_study_stats\<close> of the empty list processes nothing).
\<close>

theorem queries_only_add_defaults:
  "(\<exists>n\<le>length card_ids.
      map_of (fst (get_due_cards t card_ids e)) = with_defaults (take n card_ids) e
      \<and> (\<forall>r. snd (get_due_cards t card_ids e) = Inr r \<longrightarrow> n = length card_ids))
   \<and> (\<exists>n\<le>length card_ids.
      map_of (fst (get_study_stats t card_ids e)) = with_defaults (take n card_ids) e
      \<and> (\<forall>r. snd (get_study_stats t card_ids e) = Inr r \<longrightarrow> n = length card_ids))"
proof
  show "\<exists>n\<le>length card_ids.
      map_of (fst (get_due_cards t card_ids e)) = with_defaults (take n card_ids) e
      \<and> (\<forall>r. snd (get_due_cards t card_ids e) = Inr r \<longrightarrow> n = length card_ids)"
    unfolding get_due_cards_def by (rule get_due_loop_adds_defaults)
next
  show "\<exists>n\<le>length card_ids.
      map_of (fst (get_study_stats t card_ids e)) = with_defaults (take n card_ids) e
      \<and> (\<forall>r. snd (get_study_stats t card_ids e) = Inr r \<longrightarrow> n = length card_ids)"
  proof (cases "card_ids = []")
    case True
    then show ?thesis by (simp add: get_study_stats_def with_defaults_Nil)
  next
    case False
    obtain n where n: "n \<le> length card_ids"
      "map_of (fst (stats_loop (utc_now t) card_ids zero_counters e))
         = with_defaults (take n card_ids) e"
      "\<forall>r. snd (stats_loop (utc_now t) card_ids zero_counters e) = Inr r
           \<longrightarrow> n = length card_ids"
      using stats_loop_adds_defaults [of card_ids "utc_now t" zero_counters e] by blast
    show ?thesis
      using n False
      by (intro exI [of _ n])
         (auto simp: get_study_stats_def split: prod.splits sum.splits)
  qed
qed

text \<open>Counterexample to C5 as stated: on the empty engine either query of an unseen id
  leaves a mapping with one record.\<close>

theorem queries_mutate_counterexample:
  "fst (get_due_cards 63902908800000000 [''x''] []) = [(''x'', new_ReviewData)]
   \<and> fst (get_study_stats 63902908800000000 [''x''] []) = [(''x'', new_ReviewData)]"
  by code_simp


text \<open>Both queries on an engine that knows \<open>a\<close> and not \<open>b\<close>.\<close>

theorem queries_only_add_defaults_witness:
  "snd (get_due_cards 63902822400000000 [''a'', ''b'']
          (fst (review_card ''a'' GOOD 5 63902822400000000 63902822400000000 63902822400000000 [])))
     = Inr [''b'']
   \<and> map_of (fst (get_due_cards 63902822400000000 [''a'', ''b'']
          (fst (review_card ''a'' GOOD 5 63902822400000000 63902822400000000 63902822400000000 []))))
     = with_defaults [''a'', ''b'']
          (fst (review_card ''a'' GOOD 5 63902822400000000 63902822400000000 63902822400000000 []))
   \<and> map_of (fst (get_study_stats 63902822400000000 [''a'', ''b'']
          (fst (review_card ''a'' GOOD 5 63902822400000000 63902822400000000 63902822400000000 []))))
     = with_defaults [''a'', ''b'']
          (fst (review_card ''a'' GOOD 5 63902822400000000 63902822400000000 63902822400000000 []))"
proof -
  let ?E = "fst (review_card ''a'' GOOD 5 63902822400000000 63902822400000000 63902822400000000 [])"
  have due: "snd (get_due_cards 63902822400000000 [''a'', ''b''] ?E) = Inr [''b'']"
    by code_simp
  have "\<not> isl (snd (get_study_stats 63902822400000000 [''a'', ''b''] ?E))"
    by code_simp
  then obtain r where stats: "snd (get_study_stats 63902822400000000 [''a'', ''b''] ?E) = Inr r"
    by (cases "snd (get_study_stats 63902822400000000 [''a'', ''b''] ?E)") auto
  note q = queries_only_add_defaults [of "[''a'', ''b'']" 63902822400000000 ?E]
  obtain n where n: "n \<le> length [''a'', ''b'']"
    "map_of (fst (get_due_cards 63902822400000000 [''a'', ''b''] ?E))
       = with_defaults (take n [''a'', ''b'']) ?E"
    "\<forall>r. snd (get_due_cards 63902822400000000 [''a'', ''b''] ?E) = Inr r
         \<longrightarrow> n = length [''a'', ''b'']"
    using q by blast
  obtain m where m: "m \<le> length [''a'', ''b'']"
    "map_of (fst (get_study_stats 63902822400000000 [''a'', ''b''] ?E))
       = with_defaults (take m [''a'', ''b'']) ?E"
    "\<forall>r. snd (get_study_stats 63902822400000000 [''a'', ''b''] ?E) = Inr r
         \<longrightarrow> m = length [''a'', ''b'']"
    using q by blast
  have "n = length [''a'', ''b'']" using n(3) due by blast
  moreover have "m = length [''a'', ''b'']" using m(3) stats by blast
  ultimately show ?thesis using due n(2) m(2) by simp
qed

lemma is_due_get_review_data:
  "is_due t (snd (get_review_data k e)) c = is_due t e c"
  by (auto simp: is_due_def map_of_get_review_data with_defaults_def new_ReviewData_def
      split: option.splits)

lemma aware_get_review_data:
  assumes "\<forall>c\<in>set cs. \<forall>d. map_of e c = Some d \<longrightarrow> aware_next_review d"
  shows "\<forall>c\<in>set cs. \<forall>d. map_of (snd (get_review_data k e)) c = Some d \<longrightarrow> aware_next_review d"
  using assms
  by (auto simp: map_of_get_review_data with_defaults_def aware_next_review_def new_ReviewData_def
      split: option.splits if_splits)

lemma dt_le_aware:
  "\<not> is_naive nr \<Longrightarrow> dt_le nr (utc_now t) = Inr (instant nr \<le> t)"
  by (cases nr) (simp_all add: utc_now_def)

lemma get_due_loop_result:
  assumes "\<forall>c\<in>set card_ids. \<forall>d. map_of e c = Some d \<longrightarrow> aware_next_review d"
  shows "snd (get_due_loop (utc_now t) card_ids due e) = Inr (due @ filter (is_due t e) card_ids)"
  using assms
proof (induction card_ids arbitrary: due e)
  case Nil
  then show ?case by simp
next
  case (Cons k rest)
  let ?e1 = "snd (get_review_data k e)"
  let ?d = "fst (get_review_data k e)"
  have rest: "\<forall>c\<in>set rest. \<forall>d. map_of ?e1 c = Some d \<longrightarrow> aware_next_review d"
    using aware_get_review_data [of "k # rest" e k] Cons.prems by simp
  have ih: "snd (get_due_loop (utc_now t) rest due' ?e1) = Inr (due' @ filter (is_due t e) rest)"
    for due'
    using Cons.IH [OF rest, of due'] by (simp add: is_due_get_review_data)
  have d: "?d = (case map_of e k of None \<Rightarrow> new_ReviewData | Some d \<Rightarrow> d)"
    by (simp add: get_review_data_def split: option.splits)
  show ?case
  proof (cases "next_review ?d")
    case None
    then have "is_due t e k"
      using d by (auto simp: is_due_def split: option.splits)
    then show ?thesis using None ih [of "due @ [k]"] by (simp add: split_beta)
  next
    case (Some nr)
    then obtain d0 where d0: "map_of e k = Some d0" "?d = d0"
      using d by (cases "map_of e k") (auto simp: new_ReviewData_def)
    then have "\<not> is_naive nr"
      using Cons.prems Some by (auto simp: aware_next_review_def)
    then have le: "dt_le nr (utc_now t) = Inr (instant nr \<le> t)" by (rule dt_le_aware)
    have "is_due t e k = (instant nr \<le> t)"
      using d0 Some by (simp add: is_due_def)
    then show ?thesis
      using Some le ih [of "if instant nr \<le> t then due @ [k] else due"]
      by (simp add: split_beta)
  qed
qed

lemma next_review_unchanged:
  "next_review (add_review t result rt d) = next_review d"
  "next_review (process_learning_review d result) = next_review d"
  "next_review (update_ease_factor d result) = next_review d"
  "next_review (process_graduated_review d result) = next_review d"
  by (simp_all add: add_review_def process_learning_review_def update_ease_factor_def
      process_graduated_review_def Let_def)

lemma dt_plus_utc_now_aware: "dt_plus (utc_now t) td = Inr x \<Longrightarrow> \<not> is_naive x"
  by (auto simp: dt_plus_def utc_now_def Let_def split: sum.splits if_splits)

lemma calculate_next_review_aware:
  assumes "aware_next_review d"
  shows "aware_next_review (fst (calculate_next_review t d))"
proof -
  have set: "aware_next_review (fst (set_next_review d (dt_plus (utc_now t) td)))" for td
    using assms dt_plus_utc_now_aware [of t td]
    by (cases "dt_plus (utc_now t) td") (simp_all add: set_next_review_def aware_next_review_def)
  show ?thesis
    using assms set
    by (simp add: calculate_next_review_def Let_def split: sum.splits)
qed

lemma review_record_aware:
  assumes "aware_next_review d"
  shows "aware_next_review (fst (review_record result rt t1 t2 t3 d))"
proof -
  define d2 where "d2 = (add_review t1 result rt d)\<lparr> last_review := Some (utc_now t2) \<rparr>"
  define d3 where "d3 = (if \<not> graduated d2 then process_learning_review d2 result
                         else process_graduated_review d2 result)"
  have "next_review d3 = next_review d"
    by (simp add: d3_def d2_def next_review_unchanged)
  then have "aware_next_review d3"
    using assms by (simp add: aware_next_review_def)
  then have "aware_next_review (fst (calculate_next_review t3 d3))"
    by (rule calculate_next_review_aware)
  moreover have "fst (review_record result rt t1 t2 t3 d) = fst (calculate_next_review t3 d3)"
    by (simp add: review_record_def Let_def d3_def d2_def)
  ultimately show ?thesis by simp
qed

text \<open>
  Claim C4, amended. The claim as stated fails twice (see the counterexample): a naive
  imported \<open>next_review\<close> makes the comparison raise TypeError, and an id that was never
  reviewed may hold an imported future \<open>next_review\<close>. What holds: in every state reached
  from a fresh engine by reviews, queries, exports and imports none of whose entries carries
  a naive \<open>next_review\<close>, \<^verbatim>\<open>get_due_cards\<close> does not raise and returns, in input order,
  exactly the listed ids whose record is absent, or has \<open>next_review = None\<close>, or has
  \<open>next_review \<le> now\<close>; in particular every listed id without a record is returned.
\<close>

theorem get_due_exact:
  assumes "list_all (next_review_aware fromisoformat \<circ> snd) (imported_entries ops)"
    and "e = run fromisoformat ops []"
  shows "snd (get_due_cards t card_ids e) = Inr (filter (is_due t e) card_ids)
         \<and> (\<forall>c\<in>set card_ids. map_of e c = None \<longrightarrow> c \<in> set (filter (is_due t e) card_ids))"
proof -
  have "\<forall>d\<in>records (run fromisoformat ops []). aware_next_review d"
  proof (rule run_invariant)
    show "aware_next_review new_ReviewData"
      by (simp add: aware_next_review_def new_ReviewData_def)
  next
    fix result rt t1 t2 t3 and d :: ReviewData
    assume "aware_next_review d"
    then show "aware_next_review (fst (review_record result rt t1 t2 t3 d))"
      by (rule review_record_aware)
  next
    fix snap k cd and r :: ReviewData
    assume "Import snap \<in> set ops" and "(k, cd) \<in> set snap"
      and r: "import_card fromisoformat cd = Inr r"
    then have "next_review_aware fromisoformat cd"
      using assms(1) imported_entries_mem [of snap ops "(k, cd)"] by (force simp: list_all_iff)
    then show "aware_next_review r"
      using import_card_fields(7) [OF r]
      by (simp add: next_review_aware_def aware_next_review_def)
  next
    show "\<forall>d\<in>records []. aware_next_review d"
      by (simp add: records_def)
  qed
  then have "\<forall>c\<in>set card_ids. \<forall>d. map_of e c = Some d \<longrightarrow> aware_next_review d"
    using assms(2) by (force simp: records_def dest: map_of_SomeD)
  then have "snd (get_due_cards t card_ids e) = Inr (filter (is_due t e) card_ids)"
    using get_due_loop_result [of card_ids e t "[]"] by (simp add: get_due_cards_def)
  then show ?thesis by (simp add: is_due_def)
qed

text \<open>Counterexample to C4 as stated, at the clock reading 2026-01-01T00:00:00 UTC: after
  importing a naive timestamp the query raises; after importing a future aware timestamp
  for an id that was never reviewed the id is not returned.\<close>

theorem get_due_exact_counterexample:
  "snd (get_due_cards 63902822400000000 [''a'']
     (run py_fromisoformat
        [Import [(''a'', empty_card\<lparr> cd_next_review := Some ''2020-01-01T00:00:00'' \<rparr>)]] []))
   = Inl TypeError
   \<and> snd (get_due_cards 63902822400000000 [''b'']
     (run py_fromisoformat
        [Import [(''b'', empty_card\<lparr> cd_next_review := Some ''2030-01-01T00:00:00+00:00'' \<rparr>)]] []))
   = Inr []"
  by code_simp

text \<open>A run with aware imports and a review; \<open>a\<close> is in its first learning step, \<open>b\<close>
  is scheduled for 2030, \<open>c\<close> was scheduled for 2020, \<open>n\<close> is unknown.\<close>

theorem get_due_exact_witness:
  "list_all (next_review_aware py_fromisoformat \<circ> snd)
     (imported_entries
        [Import [(''b'', empty_card\<lparr> cd_next_review := Some ''2030-01-01T00:00:00+00:00'' \<rparr>),
                 (''c'', empty_card\<lparr> cd_next_review := Some ''2020-01-01T00:00:00+02:00'' \<rparr>)],
         Review ''a'' GOOD 5 63902822400000000 63902822400000000 63902822400000000])
   \<and> snd (get_due_cards 63902822400000000 [''a'', ''b'', ''c'', ''n'']
       (run py_fromisoformat
         [Import [(''b'', empty_card\<lparr> cd_next_review := Some ''2030-01-01T00:00:00+00:00'' \<rparr>),
                  (''c'', empty_card\<lparr> cd_next_review := Some ''2020-01-01T00:00:00+02:00'' \<rparr>)],
          Review ''a'' GOOD 5 63902822400000000 63902822400000000 63902822400000000] []))
     = Inr [''c'', ''n'']"
proof -
  let ?ops = "[Import [(''b'', empty_card\<lparr> cd_next_review := Some ''2030-01-01T00:00:00+00:00'' \<rparr>),
                  (''c'', empty_card\<lparr> cd_next_review := Some ''2020-01-01T00:00:00+02:00'' \<rparr>)],
          Review ''a'' GOOD 5 63902822400000000 63902822400000000 63902822400000000]"
  have h: "list_all (next_review_aware py_fromisoformat \<circ> snd) (imported_entries ?ops)"
    by code_simp
  have f: "filter (is_due 63902822400000000 (run py_fromisoformat ?ops []))
             [''a'', ''b'', ''c'', ''n''] = [''c'', ''n'']"
    by code_simp
  show ?thesis
    using h f get_due_exact [OF h refl, of 63902822400000000 "[''a'', ''b'', ''c'', ''n'']"]
    by simp
qed

section \<open>Importing a snapshot\<close>


lemma ReviewResult_of_ok: "ReviewResult_of v = Inr r \<Longrightarrow> 0 \<le> v \<and> v \<le> 3 \<and> result_value r = v"
  by (auto simp: ReviewResult_of_def split: if_splits)


lemma import_history_Inr:
  "import_history f h = Inr hs \<Longrightarrow>
     \<not> list_ex (bad_history_item f) h \<and> map (Some \<circ> fst) hs = map (f \<circ> fst) h"
proof (induction h arbitrary: hs)
  case Nil
  then show ?case by simp
next
  case (Cons x h)
  obtain ts v tm where x: "x = (ts, v, tm)" by (cases x)
  show ?case
    using Cons ReviewResult_of_ok [of v]
    by (auto simp: x bad_history_item_def split: option.splits sum.splits)
qed






lemma import_card_history:
  "import_card f cd = Inr r \<Longrightarrow>
     map (Some \<circ> fst) (review_history r) = map (f \<circ> fst) (get_or (cd_review_history cd) [])"
  using import_history_Inr [of f "get_or (cd_review_history cd) []"]
  by (auto simp: import_card_def Let_def split: sum.splits)



lemma import_data_other_keys:
  "k \<notin> fst ` set snap \<Longrightarrow> map_of (fst (import_data f snap e)) k = map_of e k"
proof (induction snap arbitrary: e)
  case Nil
  then show ?case by simp
next
  case (Cons x snap)
  obtain k' cd where x: "x = (k', cd)" by (cases x)
  show ?case
    using Cons by (cases "import_card f cd") (auto simp: x update_conv')
qed




lemma map_of_rev_None: "map_of (rev snap) k = None \<Longrightarrow> k \<notin> fst ` set snap"
  by (simp add: map_of_eq_None_iff)

text \<open>
  Claim C9, amended. The claim as stated fails: \<^verbatim>\<open>import_data\<close> has no timezone check. What
  holds: when the import returns, the record stored for a card id holds, for
  \<open>last_review\<close>, \<open>next_review\<close> and every history element, exactly the value
  \<^verbatim>\<open>datetime.fromisoformat\<close> gave for the string of the id's (last) entry: a naive string is
  accepted and stored as a naive timestamp, an aware one keeps its own offset, and nothing
  is rejected or converted to UTC.
\<close>

theorem import_stores_parsed_timestamps:
  assumes "snd (import_data fromisoformat snap e) = None"
    and "map_of (rev snap) card_id = Some cd"
  shows "\<exists>r. map_of (fst (import_data fromisoformat snap e)) card_id = Some r
           \<and> last_review r = parsed_timestamp fromisoformat (cd_last_review cd)
           \<and> next_review r = parsed_timestamp fromisoformat (cd_next_review cd)
           \<and> map (Some \<circ> fst) (review_history r)
               = map (fromisoformat \<circ> fst) (get_or (cd_review_history cd) [])"
  using assms
proof (induction snap arbitrary: e)
  case Nil
  then show ?case by simp
next
  case (Cons x snap)
  obtain k' cd' where x: "x = (k', cd')" by (cases x)
  obtain r' where r': "import_card fromisoformat cd' = Inr r'"
    using Cons.prems(1) by (cases "import_card fromisoformat cd'") (auto simp: x)
  have ok: "snd (import_data fromisoformat snap (AList.update k' r' e)) = None"
    using Cons.prems(1) by (simp add: x r')
  have step: "import_data fromisoformat (x # snap) e
              = import_data fromisoformat snap (AList.update k' r' e)"
    by (simp add: x r')
  show ?case
  proof (cases "map_of (rev snap) card_id")
    case (Some c)
    then have "c = cd" using Cons.prems(2) by (simp add: x map_add_def)
    then show ?thesis
      using Cons.IH [OF ok, of ] Some by (simp add: step)
  next
    case None
    then have eq: "card_id = k'" "cd = cd'"
      using Cons.prems(2) by (auto simp: x map_add_def split: if_splits)
    have "map_of (fst (import_data fromisoformat snap (AList.update k' r' e))) card_id
          = map_of (AList.update k' r' e) card_id"
      using map_of_rev_None [OF None] by (rule import_data_other_keys)
    then have "map_of (fst (import_data fromisoformat (x # snap) e)) card_id = Some r'"
      by (simp add: step eq update_conv')
    then show ?thesis
      using import_card_fields(6,7) [OF r'] import_card_history [OF r']
      unfolding eq by blast
  qed
qed

text \<open>Counterexample to C9 as stated: a naive \<open>last_review\<close> is imported without an error
  and stored naive.\<close>

theorem import_stores_naive_counterexample:
  "import_data py_fromisoformat
     [(''a'', empty_card\<lparr> cd_last_review := Some ''2030-01-01T00:00:00'' \<rparr>)] []
   = ([(''a'', new_ReviewData\<lparr> last_review := Some (Naive 64029052800000000) \<rparr>)], None)"
  by code_simp

text \<open>An entry with naive and offset timestamps, through the theorem.\<close>

theorem import_stores_parsed_timestamps_witness:
  "\<exists>r. map_of (fst (import_data py_fromisoformat
             [(''a'', empty_card\<lparr> cd_last_review := Some ''2030-01-01T00:00:00'',
                          cd_next_review := Some ''2030-01-02T00:00:00+02:00'',
                          cd_review_history := Some [(''2030-01-01T00:00:00'', 2, 4)] \<rparr>)] []))
          ''a'' = Some r
       \<and> last_review r = Some (Naive 64029052800000000)
       \<and> next_review r = Some (Aware 64029139200000000 7200000000)
       \<and> map (Some \<circ> fst) (review_history r) = [Some (Naive 64029052800000000)]"
proof -
  let ?cd = "empty_card\<lparr> cd_last_review := Some ''2030-01-01T00:00:00'',
                          cd_next_review := Some ''2030-01-02T00:00:00+02:00'',
                          cd_review_history := Some [(''2030-01-01T00:00:00'', 2, 4)] \<rparr>"
  have ok: "snd (import_data py_fromisoformat [(''a'', ?cd)] []) = None"
    by code_simp
  have m: "map_of (rev [(''a'', ?cd)]) ''a'' = Some ?cd"
    by simp
  have p: "parsed_timestamp py_fromisoformat (cd_last_review ?cd) = Some (Naive 64029052800000000)"
    "parsed_timestamp py_fromisoformat (cd_next_review ?cd)
       = Some (Aware 64029139200000000 7200000000)"
    "map (py_fromisoformat \<circ> fst) (get_or (cd_review_history ?cd) [])
       = [Some (Naive 64029052800000000)]"
    by code_simp+
  show ?thesis
    using import_stores_parsed_timestamps [OF ok m] unfolding p .
qed

section \<open>Export followed by import\<close>

lemma ReviewResult_of_value: "ReviewResult_of (result_value r) = Inr r"
  by (cases r) (simp_all add: ReviewResult_of_def)

lemma import_history_export:
  assumes "\<forall>ts\<in>fst ` set h. f (fmt ts) = Some ts"
  shows "import_history f (map (\<lambda>(timestamp, result, time). (fmt timestamp, result_value result, time)) h)
         = Inr h"
  using assms
proof (induction h)
  case Nil
  then show ?case by simp
next
  case (Cons x h)
  obtain ts r tm where x: "x = (ts, r, tm)" by (cases x)
  show ?case using Cons by (simp add: x ReviewResult_of_value)
qed

lemma import_timestamp_export:
  assumes "\<forall>ts\<in>set_option v. f (fmt ts) = Some ts \<and> fmt ts \<noteq> []"
  shows "import_timestamp f (map_option fmt v) = Inr v"
  using assms by (cases v) (simp_all add: import_timestamp_def)

lemma import_card_export:
  assumes "\<forall>ts\<in>timestamps_of d. f (fmt ts) = Some ts \<and> fmt ts \<noteq> []"
  shows "import_card f (export_card fmt d) = Inr d"
proof -
  have lr: "import_timestamp f (map_option fmt (last_review d)) = Inr (last_review d)"
    using assms by (intro import_timestamp_export) (simp add: timestamps_of_def)
  have nr: "import_timestamp f (map_option fmt (next_review d)) = Inr (next_review d)"
    using assms by (intro import_timestamp_export) (simp add: timestamps_of_def)
  have h: "import_history f
             (map (\<lambda>(timestamp, result, time). (fmt timestamp, result_value result, time))
                (review_history d)) = Inr (review_history d)"
    using assms by (intro import_history_export) (simp add: timestamps_of_def)
  show ?thesis
    by (simp add: import_card_def export_card_def get_or_def lr nr h new_ReviewData_def)
qed

lemma update_fresh: "k \<notin> fst ` set e \<Longrightarrow> AList.update k v e = e @ [(k, v)]"
  by (induction e) auto

lemma import_export_acc:
  assumes "distinct (map fst es)"
    and "fst ` set acc \<inter> fst ` set es = {}"
    and "\<forall>d\<in>records es. \<forall>ts\<in>timestamps_of d. f (fmt ts) = Some ts \<and> fmt ts \<noteq> []"
  shows "import_data f (export_data fmt es) acc = (acc @ es, None)"
  using assms
proof (induction es arbitrary: acc)
  case Nil
  then show ?case by (simp add: export_data_def)
next
  case (Cons x es)
  obtain k d where x: "x = (k, d)" by (cases x)
  have card: "import_card f (export_card fmt d) = Inr d"
    using Cons.prems(3) by (intro import_card_export) (simp add: x records_def)
  have fresh: "k \<notin> fst ` set acc" using Cons.prems(2) by (auto simp: x)
  have "import_data f (export_data fmt es) (acc @ [(k, d)]) = ((acc @ [(k, d)]) @ es, None)"
  proof (rule Cons.IH)
    show "distinct (map fst es)" using Cons.prems(1) by simp
    show "fst ` set (acc @ [(k, d)]) \<inter> fst ` set es = {}"
      using Cons.prems(1,2) by (auto simp: x)
    show "\<forall>d\<in>records es. \<forall>ts\<in>timestamps_of d. f (fmt ts) = Some ts \<and> fmt ts \<noteq> []"
      using Cons.prems(3) by (simp add: records_def)
  qed
  then show ?case
    using card update_fresh [OF fresh, of d] by (simp add: x export_data_def)
qed

lemma distinct_get_review_data:
  "distinct (map fst e) \<Longrightarrow> distinct (map fst (snd (get_review_data k e)))"
  by (simp add: get_review_data_def distinct_update split: option.splits)

lemma distinct_review_card:
  "distinct (map fst e) \<Longrightarrow> distinct (map fst (fst (review_card k result rt t1 t2 t3 e)))"
  by (simp add: review_card_eq distinct_update distinct_get_review_data)

lemma distinct_get_due_loop:
  "distinct (map fst e) \<Longrightarrow> distinct (map fst (fst (get_due_loop now card_ids due e)))"
proof (induction card_ids arbitrary: due e)
  case Nil
  then show ?case by simp
next
  case (Cons k rest)
  show ?case
    using Cons.IH [OF distinct_get_review_data [OF Cons.prems, of k]]
      distinct_get_review_data [OF Cons.prems, of k]
    by (simp add: split_beta split: option.splits sum.splits)
qed

lemma distinct_stats_loop:
  "distinct (map fst e) \<Longrightarrow> distinct (map fst (fst (stats_loop now card_ids c e)))"
proof (induction card_ids arbitrary: c e)
  case Nil
  then show ?case by simp
next
  case (Cons k rest)
  show ?case
    using Cons.IH [OF distinct_get_review_data [OF Cons.prems, of k]]
      distinct_get_review_data [OF Cons.prems, of k]
    by (simp add: split_beta split: option.splits sum.splits)
qed

lemma distinct_import_data:
  "distinct (map fst e) \<Longrightarrow> distinct (map fst (fst (import_data f snap e)))"
proof (induction snap arbitrary: e)
  case Nil
  then show ?case by simp
next
  case (Cons x snap)
  obtain k cd where x: "x = (k, cd)" by (cases x)
  show ?case
    using Cons by (cases "import_card f cd") (simp_all add: x distinct_update)
qed

lemma distinct_exec_op:
  "distinct (map fst e) \<Longrightarrow> distinct (map fst (exec_op f x e))"
proof (cases x)
  case (GetStats card_ids t)
  assume "distinct (map fst e)"
  then show ?thesis
    using distinct_stats_loop [of e "utc_now t" card_ids zero_counters]
    by (auto simp: GetStats get_study_stats_def split: prod.splits sum.splits)
qed (simp_all add: distinct_review_card get_due_cards_def distinct_get_due_loop
       distinct_import_data)

lemma distinct_run: "distinct (map fst e) \<Longrightarrow> distinct (map fst (run f ops e))"
  by (induction ops arbitrary: e) (simp_all add: distinct_exec_op)

text \<open>
  Claim C8. Let \<open>e\<close> be a state reached from a fresh engine by any sequence of reviews,
  queries, exports and imports. Provided the library's \<^verbatim>\<open>fromisoformat\<close> inverts
  \<^verbatim>\<open>isoformat\<close> on the timestamps \<open>e\<close> holds (its documented contract) and
  \<^verbatim>\<open>isoformat\<close> never yields the empty string, importing the export of \<open>e\<close> into a
  fresh engine succeeds and rebuilds \<open>e\<close> itself: same ids in the same order, same
  records with their history timestamps and outcome tags. Hence \<^verbatim>\<open>get_study_stats\<close> gives
  the same result, and leaves the same engine, on both, for every id list and clock reading.
\<close>

theorem export_import_round_trip:
  assumes "e = run fromisoformat ops []"
    and "\<forall>d\<in>records e. \<forall>ts\<in>timestamps_of d.
           fromisoformat (isoformat ts) = Some ts \<and> isoformat ts \<noteq> []"
  shows "import_data fromisoformat (export_data isoformat e) [] = (e, None)
         \<and> get_study_stats t card_ids (fst (import_data fromisoformat (export_data isoformat e) []))
             = get_study_stats t card_ids e"
proof -
  have "distinct (map fst e)"
    using distinct_run [of "[]" fromisoformat ops] assms(1) by simp
  then have "import_data fromisoformat (export_data isoformat e) [] = ([] @ e, None)"
    using assms(2) by (intro import_export_acc) simp_all
  then show ?thesis by simp
qed



text \<open>The example run with the concrete codec: its timestamps, naive, with an offset and
  with microseconds, survive the round trip.\<close>

theorem export_import_round_trip_witness:
  "import_data py_fromisoformat
     (export_data py_isoformat (run py_fromisoformat example_ops [])) []
   = (run py_fromisoformat example_ops [], None)
   \<and> get_study_stats 63902908800000000 [''c1'', ''c2'', ''n'', ''x'']
       (fst (import_data py_fromisoformat
               (export_data py_isoformat (run py_fromisoformat example_ops [])) []))
     = get_study_stats 63902908800000000 [''c1'', ''c2'', ''n'', ''x'']
         (run py_fromisoformat example_ops [])
   \<and> map fst (export_data py_isoformat (run py_fromisoformat example_ops []))
     = [''n'', ''c1'', ''c2'']"
proof -
  have h: "\<forall>d\<in>records (run py_fromisoformat example_ops []). \<forall>ts\<in>timestamps_of d.
             py_fromisoformat (py_isoformat ts) = Some ts \<and> py_isoformat ts \<noteq> []"
    by code_simp
  have k: "map fst (export_data py_isoformat (run py_fromisoformat example_ops []))
           = [''n'', ''c1'', ''c2'']"
    by code_simp
  show ?thesis
    using k export_import_round_trip [OF refl h, of 63902908800000000 "[''c1'', ''c2'', ''n'', ''x'']"]
    by blast
qed

end
